theory Spec2Isabelle
  imports Complex_Main "HOL-Library.Multiset" "HOL-Library.AList"
begin

section \<open>The uncertainty-aware reasoning engine\<close>

text \<open>
  A shallow embedding of \<^verbatim>\<open>UncertaintyAwareReasoningEngine\<close>
  (\<^verbatim>\<open>rag_system/processing/reasoning_engine.py\<close>).

  Python's \<^verbatim>\<open>float\<close> is modelled as \<^typ>\<open>real\<close>, with exact arithmetic, wherever
  the property at hand does not depend on rounding. Uncertainty propagation is modelled
  twice: in exact arithmetic, and with every operation rounded to the nearest double as
  the interpreter does, because there the two differ in what they satisfy.

  Exceptions are values: a function that can raise returns \<open>py_error + 'a\<close>, with
  \<open>Inl\<close> for the exception.
\<close>

datatype py_error =
  TypeError | AttributeError | IndexError | ZeroDivisionError | NameError string

subsection \<open>Uncertainty propagation\<close>

text \<open>
  \<^verbatim>\<open>propagate_uncertainty\<close> starts from \<^verbatim>\<open>1.0\<close>, multiplies by
  \<^verbatim>\<open>1 - step_uncertainty\<close> for each element from left to right and returns one minus
  the product. The parameter \<^verbatim>\<open>reasoning_steps\<close> is not read.
\<close>

definition propagate_uncertainty :: "string list \<Rightarrow> real list \<Rightarrow> real" where
  "propagate_uncertainty reasoning_steps uncertainties =
     1 - fold (\<lambda>step_uncertainty propagated_uncertainty.
                 propagated_uncertainty * (1 - step_uncertainty)) uncertainties 1"

subsection \<open>Double arithmetic\<close>

text \<open>
  A Python \<^verbatim>\<open>float\<close> is an IEEE 754 binary64 number, and \<^verbatim>\<open>+\<close>, \<^verbatim>\<open>-\<close>,
  \<^verbatim>\<open>*\<close> and \<^verbatim>\<open>/\<close> return the exact result rounded to the nearest such number,
  ties going to the one with an even significand. Overflow to infinity and NaN are not
  modelled; neither arises from subtraction and multiplication of numbers in \<open>[0,1]\<close>.

  Rounding to the nearest integer, ties to even:
\<close>

definition round_half_even :: "real \<Rightarrow> int" where
  "round_half_even y =
     (let n = \<lfloor>y\<rfloor>; r = y - of_int n in
      if r < 1/2 then n else if 1/2 < r then n + 1 else if even n then n else n + 1)"

text \<open>
  The binary exponent of a number: the \<open>e\<close> with \<open>2^e \<le> |x| < 2^(e+1)\<close>, found by
  stepping down from \<open>-1\<close> or up from \<open>0\<close>, and kept within the exponent range of
  normal doubles, \<open>-1022\<close> to \<open>1023\<close> (below it the numbers are subnormal and share the
  spacing of the lowest exponent).
\<close>

fun exponent_down :: "nat \<Rightarrow> int \<Rightarrow> real \<Rightarrow> int" where
  "exponent_down 0 e x = e"
| "exponent_down (Suc n) e x = (if 2 powi e \<le> x then e else exponent_down n (e - 1) x)"

fun exponent_up :: "nat \<Rightarrow> int \<Rightarrow> real \<Rightarrow> int" where
  "exponent_up 0 e x = e"
| "exponent_up (Suc n) e x = (if x < 2 powi (e + 1) then e else exponent_up n (e + 1) x)"

definition exponent :: "real \<Rightarrow> int" where
  "exponent x =
     (if 1 \<le> \<bar>x\<bar> then exponent_up 1023 0 \<bar>x\<bar> else exponent_down 1021 (- 1) \<bar>x\<bar>)"

text \<open>
  The nearest double: the significand has 53 bits, so the doubles with exponent \<open>e\<close> are
  the integer multiples of \<open>2^(e - 52)\<close>.
\<close>

definition double :: "real \<Rightarrow> real" where
  "double x =
     (let quantum = 2 powi (exponent x - 52)
      in of_int (round_half_even (x / quantum)) * quantum)"

text \<open>
  \<^verbatim>\<open>propagate_uncertainty\<close> as the interpreter computes it: the subtraction
  \<^verbatim>\<open>1 - step_uncertainty\<close>, the multiplication and the final subtraction are each
  rounded.
\<close>

definition propagate_uncertainty_double :: "string list \<Rightarrow> real list \<Rightarrow> real" where
  "propagate_uncertainty_double reasoning_steps uncertainties =
     double (1 - fold (\<lambda>step_uncertainty propagated_uncertainty.
                         double (propagated_uncertainty * double (1 - step_uncertainty)))
                  uncertainties 1)"

subsection \<open>Causal edges\<close>

text \<open>
  Modelled from the spec: the class of the values stored in \<^verbatim>\<open>causal_edges\<close> is not
  declared in the source, which only reads and writes the attribute \<^verbatim>\<open>strength\<close>.
  The spec's data model gives a causal edge a source, a target, a strength and an
  observation count.
\<close>

record causal_edge =
  edge_source :: string
  edge_target :: string
  strength :: real
  observation_count :: int

type_synonym causal_edges = "string \<times> string \<rightharpoonup> causal_edge"

text \<open>
  \<^verbatim>\<open>update_causal_strength\<close> looks the pair up with \<^verbatim>\<open>dict.get\<close>. When the key is
  missing, \<^verbatim>\<open>edge\<close> is \<^verbatim>\<open>None\<close>, the test \<^verbatim>\<open>if edge:\<close> fails and the method
  returns with the dictionary as it was. An edge object is truthy; its \<^verbatim>\<open>strength\<close> is
  overwritten in place and no other attribute is touched. The model returns the new
  dictionary.
\<close>

definition update_causal_strength ::
  "causal_edges \<Rightarrow> string \<Rightarrow> string \<Rightarrow> real \<Rightarrow> causal_edges" where
  "update_causal_strength causal_edges source target observed_probability =
     (case causal_edges (source, target) of
        None \<Rightarrow> causal_edges
      | Some edge \<Rightarrow>
          (let learning_rate = 0.1 in
           causal_edges((source, target) \<mapsto>
             edge\<lparr>strength := (1 - learning_rate) * strength edge
                                 + learning_rate * observed_probability\<rparr>)))"

text \<open>A sequence of calls for one pair, in order.\<close>

definition update_causal_strength_seq ::
  "causal_edges \<Rightarrow> string \<Rightarrow> string \<Rightarrow> real list \<Rightarrow> causal_edges" where
  "update_causal_strength_seq causal_edges source target observed_probabilities =
     fold (\<lambda>observed_probability edges.
             update_causal_strength edges source target observed_probability)
       observed_probabilities causal_edges"

subsection \<open>Beam search\<close>

text \<open>
  Before the loop \<^verbatim>\<open>beams\<close> is a list of paths (lists of entities). The assignment at
  the end of each iteration replaces it by a list of \<^verbatim>\<open>(path, score)\<close> tuples. Both
  shapes are values of one type here, because the loop body reads \<^verbatim>\<open>beams\<close> whatever
  its shape.
\<close>

datatype beam = Path "string list" | Scored "string list" real

text \<open>
  \<^verbatim>\<open>beam[-1]\<close> is the last entity of a path, and the score of a tuple. It is the
  argument of \<^verbatim>\<open>get_neighbors\<close>.
\<close>

datatype beam_end = Entity string | Score real

text \<open>\<^verbatim>\<open>xs[:n]\<close>: a negative bound counts from the end.\<close>

definition slice_upto :: "int \<Rightarrow> 'a list \<Rightarrow> 'a list" where
  "slice_upto n xs =
     (if 0 \<le> n then take (nat n) xs else take (length xs - nat (- n)) xs)"

text \<open>
  \<^verbatim>\<open>sorted(candidates, key=lambda x: x[1], reverse=True)\<close>: descending by score, and
  candidates with equal scores keep their order (\<^verbatim>\<open>reverse=True\<close> preserves stability).
\<close>

definition sorted_by_score_desc :: "(string list \<times> real) list \<Rightarrow> (string list \<times> real) list" where
  "sorted_by_score_desc candidates = sort_key (\<lambda>x. - snd x) candidates"

text \<open>
  The inner loops for one beam. For a path, every neighbour of its last entity extends it
  and is scored. For a tuple, \<^verbatim>\<open>beam + [neighbor]\<close> adds a list to a tuple and raises
  \<^verbatim>\<open>TypeError\<close> at the first neighbour; with no neighbour the body does not run.

  \<^verbatim>\<open>get_initial_entities\<close>, \<^verbatim>\<open>get_neighbors\<close> and \<^verbatim>\<open>llm.score_path\<close> are the
  engine's pluggable lookups. The source leaves the first two to be implemented (as
  written, the first returns \<^verbatim>\<open>None\<close> and the second runs into the statements left
  after its \<^verbatim>\<open>pass\<close>) and sets \<^verbatim>\<open>llm\<close> from outside. The search is modelled over
  arbitrary lookups: they are parameters. The query is fixed during one search, so the
  scorer is taken at that query.
\<close>

fun expand_beam ::
  "(beam_end \<Rightarrow> string list) \<Rightarrow> (string list \<Rightarrow> real) \<Rightarrow> beam
     \<Rightarrow> py_error + (string list \<times> real) list" where
  "expand_beam get_neighbors score_path (Path beam) =
     (if beam = [] then Inl IndexError
      else Inr (map (\<lambda>neighbor. (beam @ [neighbor], score_path (beam @ [neighbor])))
                  (get_neighbors (Entity (last beam)))))"
| "expand_beam get_neighbors score_path (Scored path score) =
     (if get_neighbors (Score score) = [] then Inr [] else Inl TypeError)"

text \<open>The loop over the beams: candidates are appended in order; an exception ends it.\<close>

fun collect_candidates ::
  "(beam_end \<Rightarrow> string list) \<Rightarrow> (string list \<Rightarrow> real) \<Rightarrow> beam list
     \<Rightarrow> py_error + (string list \<times> real) list" where
  "collect_candidates get_neighbors score_path [] = Inr []"
| "collect_candidates get_neighbors score_path (beam # beams) =
     (case expand_beam get_neighbors score_path beam of
        Inl e \<Rightarrow> Inl e
      | Inr new \<Rightarrow>
          (case collect_candidates get_neighbors score_path beams of
             Inl e \<Rightarrow> Inl e
           | Inr rest \<Rightarrow> Inr (new @ rest)))"

text \<open>\<^verbatim>\<open>for _ in range(max_depth)\<close>, with the number of iterations left.\<close>

fun beam_iterations ::
  "(beam_end \<Rightarrow> string list) \<Rightarrow> (string list \<Rightarrow> real) \<Rightarrow> int \<Rightarrow> nat \<Rightarrow> beam list
     \<Rightarrow> py_error + beam list" where
  "beam_iterations get_neighbors score_path beam_width 0 beams = Inr beams"
| "beam_iterations get_neighbors score_path beam_width (Suc n) beams =
     (case collect_candidates get_neighbors score_path beams of
        Inl e \<Rightarrow> Inl e
      | Inr candidates \<Rightarrow>
          beam_iterations get_neighbors score_path beam_width n
            (map (\<lambda>(path, score). Scored path score)
               (slice_upto beam_width (sorted_by_score_desc candidates))))"

definition beam_search ::
  "(string \<Rightarrow> string list) \<Rightarrow> (beam_end \<Rightarrow> string list) \<Rightarrow> (string \<Rightarrow> string list \<Rightarrow> real)
     \<Rightarrow> string \<Rightarrow> int \<Rightarrow> int \<Rightarrow> py_error + beam list" where
  "beam_search get_initial_entities get_neighbors score_path query beam_width max_depth =
     (let initial_entities = get_initial_entities query;
          beams = map (\<lambda>entity. Path [entity]) initial_entities
      in beam_iterations get_neighbors (score_path query) beam_width (nat max_depth) beams)"

subsection \<open>Per-step uncertainty\<close>

text \<open>
  A reasoning step is a dictionary with a \<^verbatim>\<open>type\<close> and a \<^verbatim>\<open>content\<close>. The plan
  built by \<^verbatim>\<open>_generate_reasoning_steps\<close> gives the content as the query string for
  \<^verbatim>\<open>interpret_query\<close> and as a dictionary for the other two steps. Of a dictionary
  only the key \<^verbatim>\<open>relevant_facts\<close> is read; each fact carries an \<^verbatim>\<open>uncertainty\<close>.
\<close>

record fact =
  fact_uncertainty :: real

datatype content = Str string | Dict "string \<rightharpoonup> fact list"

record reasoning_step =
  step_type :: string
  step_content :: content

text \<open>\<^verbatim>\<open>np.mean\<close> of a non-empty list of numbers.\<close>

definition mean :: "real list \<Rightarrow> real" where
  "mean xs = sum_list xs / real (length xs)"

text \<open>
  \<^verbatim>\<open>_estimate_uncertainty\<close>. A string has no method \<^verbatim>\<open>get\<close>, so string content in
  the \<^verbatim>\<open>analyze_knowledge\<close> branch raises \<^verbatim>\<open>AttributeError\<close>; the other branches
  do not read the content.
\<close>

definition estimate_uncertainty_of_step :: "reasoning_step \<Rightarrow> py_error + real" where
  "estimate_uncertainty_of_step step =
     (if step_type step = ''interpret_query'' then Inr 0.1
      else if step_type step = ''analyze_knowledge'' then
        (case step_content step of
           Str s \<Rightarrow> Inl AttributeError
         | Dict d \<Rightarrow>
             (let knowledge_uncertainties =
                    map fact_uncertainty
                      (case d ''relevant_facts'' of None \<Rightarrow> [] | Some items \<Rightarrow> items)
              in Inr (if knowledge_uncertainties \<noteq> [] then mean knowledge_uncertainties
                      else 0.5)))
      else if step_type step = ''synthesize_answer'' then Inr 0.2
      else Inr 1.0)"

subsection \<open>Uncertainty attribution\<close>

text \<open>An entry of \<^verbatim>\<open>detailed_steps\<close>, as \<^verbatim>\<open>reason_with_uncertainty\<close> builds it.\<close>

record detailed_step =
  detailed_type :: string
  detailed_result :: string
  detailed_uncertainty :: real

text \<open>\<^verbatim>\<open>a / b\<close> on numbers raises \<^verbatim>\<open>ZeroDivisionError\<close> for a zero divisor.\<close>

definition py_div :: "real \<Rightarrow> real \<Rightarrow> py_error + real" where
  "py_div a b = (if b = 0 then Inl ZeroDivisionError else Inr (a / b))"

text \<open>
  The loop of \<^verbatim>\<open>analyze_uncertainty_sources\<close>. The result dictionary keeps insertion
  order, and assigning to a key that is present overwrites its value in place: an
  association list with \<^const>\<open>AList.update\<close>.
\<close>

fun attribute_steps ::
  "real \<Rightarrow> detailed_step list \<Rightarrow> (string \<times> real) list \<Rightarrow> py_error + (string \<times> real) list" where
  "attribute_steps total_uncertainty [] uncertainty_sources = Inr uncertainty_sources"
| "attribute_steps total_uncertainty (step # steps) uncertainty_sources =
     (case (if total_uncertainty > 0
            then py_div (detailed_uncertainty step) total_uncertainty else Inr 0) of
        Inl e \<Rightarrow> Inl e
      | Inr contribution \<Rightarrow>
          attribute_steps total_uncertainty steps
            (AList.update (detailed_type step) contribution uncertainty_sources))"

definition analyze_uncertainty_sources ::
  "detailed_step list \<Rightarrow> py_error + (string \<times> real) list" where
  "analyze_uncertainty_sources detailed_steps =
     (let total_uncertainty = sum_list (map detailed_uncertainty detailed_steps)
      in attribute_steps total_uncertainty detailed_steps [])"

subsection \<open>The method \<^verbatim>\<open>reason\<close>\<close>

text \<open>
  Modelled from the spec: \<^verbatim>\<open>RetrievalResult\<close> is imported from
  \<^verbatim>\<open>core.structures\<close>, which is not part of the source at hand. Its fields are the
  keyword arguments of the constructor call in \<^verbatim>\<open>reason\<close>, the spec's scored node.
\<close>

record retrieval_result =
  result_id :: int
  result_content :: string
  result_score :: real
  result_uncertainty :: real
  result_timestamp :: int
  result_version :: int

text \<open>The dictionary \<^verbatim>\<open>reasoning_result\<close>.\<close>

record reasoning_result =
  result_query :: string
  conclusion :: string
  confidence :: real
  uncertainty :: real
  supporting_evidence :: "string list"
  activated_concepts :: "string list"

text \<open>What a call may return: a list of retrieval results, or a result dictionary.\<close>

datatype reason_value = Retrieved "retrieval_result list" | Result reasoning_result

text \<open>
  The names bound at module level, by the import statements and the class statement. No
  other assignment is made at module level.
\<close>

definition module_names :: "string list" where
  "module_names =
     [''np'', ''Dict'', ''Any'', ''List'', ''Tuple'', ''datetime'', ''UnifiedConfig'',
      ''RetrievalResult'', ''UncertaintyAwareReasoningEngine'']"

text \<open>
  Reading a name inside a function: a parameter or a local of the function, else a
  module-level name, else \<^verbatim>\<open>NameError\<close> (none of the names read below is a builtin).
\<close>

definition resolve_name :: "string list \<Rightarrow> string \<Rightarrow> py_error + unit" where
  "resolve_name local_names name =
     (if name \<in> set local_names \<or> name \<in> set module_names then Inr ()
      else Inl (NameError name))"

text \<open>
  The body of \<^verbatim>\<open>reason\<close> (lines 14 to 58). It opens a session on the driver, which
  \<^verbatim>\<open>__init__\<close> sets to \<^verbatim>\<open>None\<close> until a driver is supplied; it then tests
  \<^verbatim>\<open>timestamp\<close> and passes \<^verbatim>\<open>k\<close> to the query, and returns the records of the
  query as a list of retrieval results. The session is a parameter: the records it
  yields for a query text. The parameters \<^verbatim>\<open>retrieved_info\<close> and
  \<^verbatim>\<open>activated_knowledge\<close> are not read.
\<close>

definition reason ::
  "(string \<Rightarrow> retrieval_result list) option \<Rightarrow> string \<Rightarrow> retrieval_result list
     \<Rightarrow> (string \<times> 'v) list \<Rightarrow> py_error + reason_value" where
  "reason driver query retrieved_info activated_knowledge =
     (case driver of
        None \<Rightarrow> Inl AttributeError
      | Some session \<Rightarrow>
          (let local_names = [''self'', ''query'', ''retrieved_info'', ''activated_knowledge'',
                              ''session'', ''result'', ''record''] in
           case resolve_name local_names ''timestamp'' of
             Inl e \<Rightarrow> Inl e
           | Inr _ \<Rightarrow>
               (case resolve_name local_names ''k'' of
                  Inl e \<Rightarrow> Inl e
                | Inr _ \<Rightarrow> Inr (Retrieved (session query)))))"

text \<open>
  The statements that build and return the result dictionary stand after the
  \<^verbatim>\<open>pass\<close> of \<^verbatim>\<open>get_neighbors\<close> (lines 100 to 108), not in \<^verbatim>\<open>reason\<close>. The
  dictionary they build, as a function of the three names they read;
  \<^verbatim>\<open>activated_knowledge\<close> is a dictionary, whose keys come in insertion order.
\<close>

definition placeholder_reasoning_result ::
  "string \<Rightarrow> retrieval_result list \<Rightarrow> (string \<times> 'v) list \<Rightarrow> reasoning_result" where
  "placeholder_reasoning_result query retrieved_info activated_knowledge =
     \<lparr>result_query = query,
      conclusion = ''This is a placeholder conclusion.'',
      confidence = 0.8,
      uncertainty = 0.2,
      supporting_evidence = map result_content (take 3 retrieved_info),
      activated_concepts = take 5 (map fst activated_knowledge)\<rparr>"

subsection \<open>Example inputs\<close>

text \<open>The edge of the spec's scenario after its first observation.\<close>

definition ab_edge :: causal_edge where
  "ab_edge = \<lparr>edge_source = ''A'', edge_target = ''B'', strength = 9/10, observation_count = 1\<rparr>"

text \<open>
  The graph of the spec's beam-search scenario: initial entities \<open>X\<close> and \<open>Y\<close>, the
  neighbours \<open>A\<close> and \<open>B\<close> whatever is asked, and the four scores of the scenario.
\<close>

definition xy_entities :: "string \<Rightarrow> string list" where
  "xy_entities query = [''X'', ''Y'']"

definition ab_neighbors :: "beam_end \<Rightarrow> string list" where
  "ab_neighbors end = [''A'', ''B'']"

definition scenario_score :: "string \<Rightarrow> string list \<Rightarrow> real" where
  "scenario_score query path =
     (if path = [''X'', ''A''] then 9/10
      else if path = [''X'', ''B''] then 8/10
      else if path = [''Y'', ''A''] then 7/10
      else 6/10)"

text \<open>One step of each kind, and one of a type the engine does not know.\<close>

definition interpret_step :: reasoning_step where
  "interpret_step = \<lparr>step_type = ''interpret_query'', step_content = Str ''why?''\<rparr>"

definition analyze_step :: reasoning_step where
  "analyze_step = \<lparr>step_type = ''analyze_knowledge'',
     step_content = Dict [''relevant_facts'' \<mapsto>
        [\<lparr>fact_uncertainty = 1/5\<rparr>, \<lparr>fact_uncertainty = 2/5\<rparr>]]\<rparr>"

definition analyze_step_no_facts :: reasoning_step where
  "analyze_step_no_facts = \<lparr>step_type = ''analyze_knowledge'', step_content = Dict Map.empty\<rparr>"

definition synthesize_step :: reasoning_step where
  "synthesize_step = \<lparr>step_type = ''synthesize_answer'', step_content = Dict Map.empty\<rparr>"

definition unknown_step :: reasoning_step where
  "unknown_step = \<lparr>step_type = ''verify_answer'', step_content = Dict Map.empty\<rparr>"




subsection \<open>Auxiliary notions\<close>

text \<open>
  The value of the local \<^verbatim>\<open>contribution\<close> of \<^verbatim>\<open>analyze_uncertainty_sources\<close> for one
  step, once the guard has kept a zero divisor away.
\<close>

definition contribution :: "real \<Rightarrow> detailed_step \<Rightarrow> real" where
  "contribution total_uncertainty step =
     (if total_uncertainty > 0 then detailed_uncertainty step / total_uncertainty else 0)"

subsection \<open>Facts about the propagation loop\<close>

lemma fold_propagate:
  "fold (\<lambda>u (p::real). p * (1 - u)) us a = a * prod_list (map (\<lambda>u. 1 - u) us)"
  by (induction us arbitrary: a) (simp_all add: mult.assoc)

lemma propagate_uncertainty_prod:
  "propagate_uncertainty rs us = 1 - prod_list (map (\<lambda>u. 1 - u) us)"
  by (simp add: propagate_uncertainty_def fold_propagate)

lemma prod_list_unit_bounds:
  "\<forall>x\<in>set xs. 0 \<le> x \<and> x \<le> (1::real) \<Longrightarrow> 0 \<le> prod_list xs \<and> prod_list xs \<le> 1"
proof (induction xs)
  case Nil
  show ?case by simp
next
  case (Cons x xs)
  then have x: "0 \<le> x" "x \<le> 1" and p: "0 \<le> prod_list xs" "prod_list xs \<le> 1"
    by simp_all
  have "x * prod_list xs \<le> 1 * 1"
    using x p by (intro mult_mono) simp_all
  with x p show ?case by simp
qed

lemma prod_list_unit_eq_1:
  "\<forall>x\<in>set xs. 0 \<le> x \<and> x \<le> (1::real) \<Longrightarrow> prod_list xs = 1 \<longleftrightarrow> (\<forall>x\<in>set xs. x = 1)"
proof (induction xs)
  case Nil
  show ?case by simp
next
  case (Cons x xs)
  then have x: "0 \<le> x" "x \<le> 1" and rest: "\<forall>y\<in>set xs. 0 \<le> y \<and> y \<le> 1"
    by simp_all
  from rest have p: "0 \<le> prod_list xs" "prod_list xs \<le> 1"
    using prod_list_unit_bounds by blast+
  have ih: "prod_list xs = 1 \<longleftrightarrow> (\<forall>y\<in>set xs. y = 1)"
    using Cons.IH rest by blast
  show ?case
  proof
    assume e: "prod_list (x # xs) = 1"
    have "x = 1"
    proof (rule ccontr)
      assume "x \<noteq> 1"
      with x have "x < 1" by simp
      have "x * prod_list xs \<le> x * 1"
        using x p by (intro mult_left_mono) simp_all
      with \<open>x < 1\<close> e show False by simp
    qed
    with e ih show "\<forall>y\<in>set (x # xs). y = 1" by simp
  next
    assume "\<forall>y\<in>set (x # xs). y = 1"
    with ih show "prod_list (x # xs) = 1" by simp
  qed
qed

lemma prod_list_zero_factor:
  "(0::real) \<in> set xs \<Longrightarrow> prod_list xs = 0"
  by (induction xs) auto

lemma prod_list_permutation:
  "mset xs = mset ys \<Longrightarrow> prod_list xs = (prod_list ys :: real)"
  by (metis prod_mset_prod_list)

text \<open>
  In exact arithmetic the combination \<open>1 - \<Prod> (1 - u\<^sub>i)\<close> of uncertainties in \<open>[0,1]\<close>
  lies in \<open>[0,1]\<close>, is 0 exactly when every uncertainty is 0, is 1 when one of them is 1,
  and does not depend on their order.
\<close>

lemma noisy_or_exact_arithmetic:
  assumes "\<forall>u\<in>set us. 0 \<le> u \<and> u \<le> 1"
  shows "(0 \<le> propagate_uncertainty rs us \<and> propagate_uncertainty rs us \<le> 1)
       \<and> (propagate_uncertainty rs us = 0 \<longleftrightarrow> (\<forall>u\<in>set us. u = 0))
       \<and> ((\<exists>u\<in>set us. u = 1) \<longrightarrow> propagate_uncertainty rs us = 1)
       \<and> (\<forall>vs. mset vs = mset us \<longrightarrow> propagate_uncertainty rs vs = propagate_uncertainty rs us)"
proof -
  let ?fs = "map (\<lambda>u. 1 - u) us"
  from assms have unit: "\<forall>x\<in>set ?fs. 0 \<le> x \<and> x \<le> 1"
    by auto
  have bounds: "0 \<le> propagate_uncertainty rs us \<and> propagate_uncertainty rs us \<le> 1"
    using prod_list_unit_bounds [OF unit] by (simp add: propagate_uncertainty_prod)
  have "prod_list ?fs = 1 \<longleftrightarrow> (\<forall>x\<in>set ?fs. x = 1)"
    by (rule prod_list_unit_eq_1 [OF unit])
  then have zero: "propagate_uncertainty rs us = 0 \<longleftrightarrow> (\<forall>u\<in>set us. u = 0)"
    by (simp add: propagate_uncertainty_prod)
  have one: "(\<exists>u\<in>set us. u = 1) \<longrightarrow> propagate_uncertainty rs us = 1"
  proof
    assume "\<exists>u\<in>set us. u = 1"
    then have "(0::real) \<in> set ?fs" by force
    then have "prod_list ?fs = 0" by (rule prod_list_zero_factor)
    then show "propagate_uncertainty rs us = 1"
      by (simp add: propagate_uncertainty_prod)
  qed
  have perm: "\<forall>vs. mset vs = mset us \<longrightarrow>
                propagate_uncertainty rs vs = propagate_uncertainty rs us"
  proof (intro allI impI)
    fix vs :: "real list"
    assume "mset vs = mset us"
    then have "mset (map (\<lambda>u. 1 - u) vs) = mset ?fs" by (metis mset_map)
    then have "prod_list (map (\<lambda>u. 1 - u) vs) = prod_list ?fs"
      by (rule prod_list_permutation)
    then show "propagate_uncertainty rs vs = propagate_uncertainty rs us"
      by (simp add: propagate_uncertainty_prod)
  qed
  from bounds zero one perm show ?thesis by blast
qed

subsection \<open>Facts about double arithmetic\<close>

lemma round_half_even_of_int [simp]: "round_half_even (of_int n) = n"
  by (simp add: round_half_even_def)

lemma round_half_even_nonneg: "0 \<le> y \<Longrightarrow> 0 \<le> round_half_even y"
  by (auto simp: round_half_even_def Let_def)

lemma round_half_even_le: "y \<le> of_int N \<Longrightarrow> round_half_even y \<le> N"
proof -
  assume a: "y \<le> of_int N"
  show ?thesis
  proof (cases "y = of_int N")
    case True
    then show ?thesis by simp
  next
    case False
    with a have "y < of_int N" by simp
    then have "\<lfloor>y\<rfloor> < N" by (simp add: floor_less_iff)
    then show ?thesis by (auto simp: round_half_even_def Let_def)
  qed
qed

lemma exponent_down_le: "exponent_down n e x \<le> e"
  by (induction n e x rule: exponent_down.induct) auto

lemma exponent_below_one: "\<bar>x\<bar> < 1 \<Longrightarrow> exponent x \<le> - 1"
  by (simp add: exponent_def exponent_down_le)


lemma exponent_zero: "exponent 0 \<le> - 1"
  by (simp add: exponent_below_one)

lemma double_zero [simp]: "double 0 = 0"
  by (simp add: double_def round_half_even_def)

lemma pow2_less_imp_less: "(2::real) powi a < 2 powi b \<Longrightarrow> a < b"
proof (rule ccontr)
  assume lt: "(2::real) powi a < 2 powi b" and "\<not> a < b"
  then have "b \<le> a" by simp
  then have "(2::real) powi b \<le> 2 powi a" by (rule power_int_increasing) simp
  with lt show False by simp
qed

lemma exponent_down_eq:
  "2 powi e \<le> x \<Longrightarrow> x < 2 powi (e + 1) \<Longrightarrow> e \<le> e0 \<Longrightarrow> nat (e0 - e) \<le> n \<Longrightarrow>
   exponent_down n e0 x = e"
proof (induction n arbitrary: e0)
  case 0
  then show ?case by simp
next
  case (Suc n)
  show ?case
  proof (cases "2 powi e0 \<le> x")
    case True
    with Suc.prems have "(2::real) powi e0 < 2 powi (e + 1)" by simp
    then have "e0 < e + 1" by (rule pow2_less_imp_less)
    with Suc.prems True show ?thesis by simp
  next
    case False
    with Suc.prems have "e \<noteq> e0" by auto
    with Suc.prems have "e \<le> e0 - 1" "nat (e0 - 1 - e) \<le> n" by simp_all
    with Suc.prems False show ?thesis by (simp add: Suc.IH)
  qed
qed

lemma exponent_up_eq:
  "2 powi e \<le> x \<Longrightarrow> x < 2 powi (e + 1) \<Longrightarrow> e0 \<le> e \<Longrightarrow> nat (e - e0) \<le> n \<Longrightarrow>
   exponent_up n e0 x = e"
proof (induction n arbitrary: e0)
  case 0
  then show ?case by simp
next
  case (Suc n)
  show ?case
  proof (cases "x < 2 powi (e0 + 1)")
    case True
    with Suc.prems have "(2::real) powi e < 2 powi (e0 + 1)" by simp
    then have "e < e0 + 1" by (rule pow2_less_imp_less)
    with Suc.prems True show ?thesis by simp
  next
    case False
    with Suc.prems have "e \<noteq> e0" by auto
    with Suc.prems have "e0 + 1 \<le> e" "nat (e - (e0 + 1)) \<le> n" by simp_all
    with Suc.prems False show ?thesis by (simp add: Suc.IH)
  qed
qed

lemma exponent_eq:
  assumes "- 1022 \<le> e" "e \<le> 1023" "2 powi e \<le> \<bar>x\<bar>" "\<bar>x\<bar> < 2 powi (e + 1)"
  shows "exponent x = e"
proof (cases "1 \<le> \<bar>x\<bar>")
  case True
  with assms(4) have "(2::real) powi 0 < 2 powi (e + 1)" by simp
  then have "0 < e + 1" by (rule pow2_less_imp_less)
  with assms have "exponent_up 1023 0 \<bar>x\<bar> = e"
    by (intro exponent_up_eq) simp_all
  with True show ?thesis by (simp add: exponent_def)
next
  case False
  with assms(3) have "(2::real) powi e < 2 powi 0" by simp
  then have "e < 0" by (rule pow2_less_imp_less)
  with assms have "exponent_down 1021 (- 1) \<bar>x\<bar> = e"
    by (intro exponent_down_eq) simp_all
  with False show ?thesis by (simp add: exponent_def)
qed

lemma double_in_binade:
  assumes "- 1022 \<le> e" "e \<le> 1023" "2 powi e \<le> \<bar>x\<bar>" "\<bar>x\<bar> < 2 powi (e + 1)"
  shows "double x = of_int (round_half_even (x / 2 powi (e - 52))) * 2 powi (e - 52)"
  by (simp add: double_def Let_def exponent_eq [OF assms])

lemma exponent_one: "exponent 1 = 0"
  by (rule exponent_eq) simp_all

lemma double_one [simp]: "double 1 = 1"
proof -
  have "(1::real) / 2 powi (- 52) = of_int (2 ^ 52)"
    by (simp add: power_int_minus)
  then have "round_half_even (1 / 2 powi (- 52)) = 2 ^ 52"
    by (simp only: round_half_even_of_int)
  then show ?thesis
    by (simp add: double_def exponent_one power_int_minus)
qed

lemma double_unit_interval:
  assumes "0 \<le> x" "x \<le> 1"
  shows "0 \<le> double x \<and> double x \<le> 1"
proof (cases "x = 1")
  case True
  then show ?thesis by simp
next
  case False
  with assms have lt: "\<bar>x\<bar> < 1" by simp
  define e where "e = exponent x"
  define q :: real where "q = 2 powi (e - 52)"
  define N :: int where "N = 2 ^ nat (52 - e)"
  from lt have e: "e \<le> - 1" unfolding e_def by (rule exponent_below_one)
  have q: "0 < q" by (simp add: q_def)
  have "q * of_int N = 2 powi (e - 52) * 2 powi (int (nat (52 - e)))"
    by (simp add: q_def N_def del: int_nat_eq)
  also have "\<dots> = 2 powi ((e - 52) + int (nat (52 - e)))"
    by (simp add: power_int_add)
  also have "\<dots> = 1" using e by simp
  finally have qN: "q * of_int N = 1" .
  then have N: "of_int N = 1 / q" using q by (simp add: field_simps)
  from assms q have "x / q \<le> 1 / q" by (simp add: divide_right_mono)
  with N have "x / q \<le> of_int N" by simp
  then have up: "round_half_even (x / q) \<le> N" by (rule round_half_even_le)
  from assms q have "0 \<le> x / q" by simp
  then have lo: "0 \<le> round_half_even (x / q)" by (rule round_half_even_nonneg)
  have d: "double x = of_int (round_half_even (x / q)) * q"
    by (simp add: double_def Let_def q_def e_def)
  from lo q have "0 \<le> double x" by (simp add: d)
  moreover have "double x \<le> 1"
  proof -
    from up have "(of_int (round_half_even (x / q)) :: real) \<le> of_int N" by simp
    with q have "of_int (round_half_even (x / q)) * q \<le> of_int N * q"
      by (simp add: mult_right_mono)
    with qN show ?thesis by (simp add: d mult.commute)
  qed
  ultimately show ?thesis by simp
qed

lemma product_step_unit_interval:
  assumes "0 \<le> p" "p \<le> 1" "0 \<le> u" "u \<le> 1"
  shows "0 \<le> double (p * double (1 - u)) \<and> double (p * double (1 - u)) \<le> 1"
proof -
  from assms have f: "0 \<le> double (1 - u) \<and> double (1 - u) \<le> 1"
    by (intro double_unit_interval) simp_all
  with assms have "0 \<le> p * double (1 - u)" "p * double (1 - u) \<le> 1"
    by (simp_all add: mult_le_one)
  then show ?thesis by (intro double_unit_interval) simp_all
qed

lemma product_loop_unit_interval:
  "\<forall>u\<in>set us. 0 \<le> u \<and> u \<le> 1 \<Longrightarrow> 0 \<le> p \<Longrightarrow> p \<le> 1 \<Longrightarrow>
   0 \<le> fold (\<lambda>u p. double (p * double (1 - u))) us p
   \<and> fold (\<lambda>u p. double (p * double (1 - u))) us p \<le> 1"
proof (induction us arbitrary: p)
  case Nil
  then show ?case by simp
next
  case (Cons u us)
  then have "0 \<le> double (p * double (1 - u)) \<and> double (p * double (1 - u)) \<le> 1"
    by (intro product_step_unit_interval) simp_all
  with Cons show ?case by simp
qed

lemma product_loop_all_zero:
  "\<forall>u\<in>set us. u = 0 \<Longrightarrow> fold (\<lambda>u p. double (p * double (1 - u))) us 1 = 1"
  by (induction us) simp_all

lemma product_loop_from_zero:
  "fold (\<lambda>u p. double (p * double (1 - u))) us 0 = 0"
  by (induction us) simp_all

lemma product_loop_some_one:
  "1 \<in> set us \<Longrightarrow> fold (\<lambda>u p. double (p * double (1 - u))) us p = 0"
proof (induction us arbitrary: p)
  case Nil
  then show ?case by simp
next
  case (Cons u us)
  show ?case
  proof (cases "u = 1")
    case True
    then show ?thesis by (simp add: product_loop_from_zero)
  next
    case False
    with Cons.prems have "1 \<in> set us" by simp
    then show ?thesis by (simp add: Cons.IH)
  qed
qed

text \<open>
  Rounding a number of \<open>[0,1]\<close> moves it by at most half a unit in the last place,
  \<open>2^-54\<close>. Each pass of the loop rounds twice, and the result is rounded once more.
\<close>

lemma round_half_even_error: "\<bar>of_int (round_half_even y) - y\<bar> \<le> 1/2"
proof -
  have "of_int \<lfloor>y\<rfloor> \<le> y" "y < of_int \<lfloor>y\<rfloor> + 1" by linarith+
  then show ?thesis
    by (auto simp: round_half_even_def Let_def)
qed

lemma double_error_unit_interval:
  assumes "0 \<le> x" "x \<le> 1"
  shows "\<bar>double x - x\<bar> \<le> 1 / 2 ^ 54"
proof (cases "x = 1")
  case True
  then show ?thesis by simp
next
  case False
  with assms have "\<bar>x\<bar> < 1" by simp
  then have e: "exponent x \<le> - 1" by (rule exponent_below_one)
  define q :: real where "q = 2 powi (exponent x - 52)"
  have q: "0 < q" by (simp add: q_def)
  from e have "exponent x - 52 \<le> - 53" by simp
  then have "q \<le> 2 powi (- 53)" unfolding q_def by (rule power_int_increasing) simp
  moreover have "(2::real) powi (- 53) = 1 / 2 ^ 53" by (simp add: inverse_eq_divide)
  ultimately have q53: "q \<le> 1 / 2 ^ 53" by (simp only:)
  have "double x - x = (of_int (round_half_even (x / q)) - x / q) * q"
    using q by (simp add: double_def Let_def q_def [symmetric] field_simps)
  then have "\<bar>double x - x\<bar> = \<bar>of_int (round_half_even (x / q)) - x / q\<bar> * q"
    using q by (simp add: abs_mult)
  also have "\<dots> \<le> 1/2 * q"
    using q round_half_even_error [of "x / q"] by (intro mult_right_mono) simp_all
  also have "\<dots> \<le> 1/2 * (1 / 2 ^ 53)"
    using q53 by simp
  finally show ?thesis by simp
qed

lemma product_step_error:
  assumes "0 \<le> p" "p \<le> 1" "0 \<le> u" "u \<le> 1"
  shows "\<bar>double (p * double (1 - u)) - P * (1 - u)\<bar> \<le> \<bar>p - P\<bar> + 2 / 2 ^ 54"
proof -
  let ?f = "1 - u" and ?f' = "double (1 - u)"
  from assms have f: "0 \<le> ?f" "?f \<le> 1" by simp_all
  then have f': "0 \<le> ?f'" "?f' \<le> 1" using double_unit_interval [of ?f] by simp_all
  from f have ef: "\<bar>?f' - ?f\<bar> \<le> 1 / 2 ^ 54" by (rule double_error_unit_interval)
  from assms f' have "0 \<le> p * ?f'" "p * ?f' \<le> 1" by (simp_all add: mult_le_one)
  then have e1: "\<bar>double (p * ?f') - p * ?f'\<bar> \<le> 1 / 2 ^ 54"
    by (rule double_error_unit_interval)
  have "\<bar>p * ?f' - p * ?f\<bar> = p * \<bar>?f' - ?f\<bar>"
    using assms(1) by (simp add: abs_mult flip: right_diff_distrib)
  also have "\<dots> \<le> 1 * (1 / 2 ^ 54)"
    using assms(1,2) ef by (intro mult_mono) simp_all
  finally have e2: "\<bar>p * ?f' - p * ?f\<bar> \<le> 1 / 2 ^ 54" by simp
  have "\<bar>p * ?f - P * ?f\<bar> = \<bar>p - P\<bar> * ?f"
    using f(1) by (simp add: abs_mult flip: left_diff_distrib)
  also have "\<dots> \<le> \<bar>p - P\<bar> * 1"
    using f(2) by (intro mult_left_mono) simp_all
  finally have e3: "\<bar>p * ?f - P * ?f\<bar> \<le> \<bar>p - P\<bar>" by simp
  from e1 e2 e3 show ?thesis by linarith
qed

lemma product_loop_error:
  "\<forall>u\<in>set us. 0 \<le> u \<and> u \<le> 1 \<Longrightarrow> 0 \<le> p \<Longrightarrow> p \<le> 1 \<Longrightarrow>
   \<bar>fold (\<lambda>u p. double (p * double (1 - u))) us p - fold (\<lambda>u P. P * (1 - u)) us P\<bar>
     \<le> \<bar>p - P\<bar> + 2 * real (length us) / 2 ^ 54"
proof (induction us arbitrary: p P)
  case Nil
  then show ?case by simp
next
  case (Cons u us)
  then have u: "0 \<le> u" "u \<le> 1" by simp_all
  let ?p' = "double (p * double (1 - u))" and ?P' = "P * (1 - u)"
  from Cons.prems u have p': "0 \<le> ?p'" "?p' \<le> 1"
    using product_step_unit_interval [of p u] by simp_all
  from Cons.prems u have step: "\<bar>?p' - ?P'\<bar> \<le> \<bar>p - P\<bar> + 2 / 2 ^ 54"
    by (intro product_step_error) simp_all
  from Cons.prems have "\<forall>u\<in>set us. 0 \<le> u \<and> u \<le> 1" by simp
  from Cons.IH [OF this p', of ?P']
  have "\<bar>fold (\<lambda>u p. double (p * double (1 - u))) us ?p' - fold (\<lambda>u P. P * (1 - u)) us ?P'\<bar>
          \<le> \<bar>?p' - ?P'\<bar> + 2 * real (length us) / 2 ^ 54" .
  with step show ?case by (simp add: field_simps)
qed

lemma propagate_uncertainty_double_error:
  assumes "\<forall>u\<in>set us. 0 \<le> u \<and> u \<le> 1"
  shows "\<bar>propagate_uncertainty_double rs us - propagate_uncertainty rs us\<bar>
           \<le> (2 * real (length us) + 1) / 2 ^ 54"
proof -
  let ?p = "fold (\<lambda>u p. double (p * double (1 - u))) us 1"
  let ?P = "fold (\<lambda>u P. P * (1 - u)) us 1"
  from assms have p: "0 \<le> ?p \<and> ?p \<le> 1"
    by (intro product_loop_unit_interval) simp_all
  from assms have e: "\<bar>?p - ?P\<bar> \<le> 2 * real (length us) / 2 ^ 54"
    using product_loop_error [of us 1 1] by simp
  from p have "\<bar>double (1 - ?p) - (1 - ?p)\<bar> \<le> 1 / 2 ^ 54"
    by (intro double_error_unit_interval) simp_all
  with e have "\<bar>double (1 - ?p) - (1 - ?P)\<bar> \<le> 2 * real (length us) / 2 ^ 54 + 1 / 2 ^ 54"
    by linarith
  then show ?thesis
    by (simp add: propagate_uncertainty_double_def propagate_uncertainty_def add_divide_distrib)
qed

text \<open>
  With no uncertainty at all the rounded loop returns 0, and it does not read the
  reasoning steps either.
\<close>

lemma propagate_uncertainty_double_empty:
  "propagate_uncertainty_double reasoning_steps [] = 0"
  by (simp add: propagate_uncertainty_double_def)

lemma propagate_uncertainty_double_ignores_steps:
  "propagate_uncertainty_double reasoning_steps uncertainties =
   propagate_uncertainty_double reasoning_steps' uncertainties"
  by (simp add: propagate_uncertainty_double_def)

text \<open>Evaluating the rounding at a given number, once its exponent is known.\<close>

lemma round_half_even_near:
  assumes "\<bar>y - of_int n\<bar> < 1/2"
  shows "round_half_even y = n"
proof (cases "of_int n \<le> y")
  case True
  with assms have "\<lfloor>y\<rfloor> = n" by (intro floor_unique) simp_all
  with assms True show ?thesis by (simp add: round_half_even_def)
next
  case False
  with assms have "\<lfloor>y\<rfloor> = n - 1" by (intro floor_unique) simp_all
  with assms False show ?thesis by (simp add: round_half_even_def)
qed

lemma round_half_even_tie:
  "round_half_even (of_int n + 1/2) = (if even n then n else n + 1)"
proof -
  have "\<lfloor>of_int n + (1/2::real)\<rfloor> = n" by (intro floor_unique) simp_all
  then show ?thesis by (simp add: round_half_even_def)
qed

lemma double_near:
  assumes "- 1022 \<le> e" "e \<le> 1023" "2 powi e \<le> \<bar>x\<bar>" "\<bar>x\<bar> < 2 powi (e + 1)"
      and "\<bar>x / 2 powi (e - 52) - of_int n\<bar> < 1/2"
  shows "double x = of_int n * 2 powi (e - 52)"
  by (simp add: double_in_binade [OF assms(1-4)] round_half_even_near [OF assms(5)])

lemma double_tie:
  assumes "- 1022 \<le> e" "e \<le> 1023" "2 powi e \<le> \<bar>x\<bar>" "\<bar>x\<bar> < 2 powi (e + 1)"
      and "x / 2 powi (e - 52) = of_int n + 1/2"
  shows "double x = of_int (if even n then n else n + 1) * 2 powi (e - 52)"
  by (simp add: double_in_binade [OF assms(1-4)] assms(5) round_half_even_tie)

text \<open>
  Three runs of the rounded loop. An uncertainty of \<open>2^-60\<close> is lost in the first
  subtraction. The uncertainties \<open>2^-27\<close>, \<open>2^-27\<close> and \<open>3 * 2^-27\<close> give results that
  differ in the last place when the third is moved to the front. And \<open>1/2\<close>, \<open>1/4\<close> are
  combined without any rounding, to \<open>1 - 1/2 * 3/4\<close>.
\<close>

lemma tiny_uncertainty_is_lost: "propagate_uncertainty_double [] [1/2^60] = 0"
proof -
  have 1: "double (1 - 1/2^60) = 1"
    using double_near [of "-1" "1 - 1/2^60" "2^53"] by (simp add: power_int_minus)
  have "propagate_uncertainty_double [] [1/2^60] = double (1 - double (1 * double (1 - 1/2^60)))"
    by (simp only: propagate_uncertainty_double_def fold_simps o_apply id_apply)
  also have "\<dots> = 0" by (simp only: 1 mult_1 double_one diff_self double_zero)
  finally show ?thesis .
qed

lemma small_uncertainties_in_order: "propagate_uncertainty_double [] [1/2^27, 1/2^27, 3/2^27] = 335544317 / 2^53"
proof -
  define fa :: real where "fa = 1 - 1/2^27"
  define fb :: real where "fb = 1 - 3/2^27"
  define p2 :: real where "p2 = 1 - 1/2^26"
  define p3 :: real where "p3 = 1 - 5/2^27 + 3/2^53"
  have 1: "double (1 - 1/2^27) = fa"
    using double_near [of "-1" "1 - 1/2^27" "2^53 - 2^26"]
    by (simp add: fa_def power_int_minus)
  have 2: "double (1 * fa) = fa"
    using double_near [of "-1" "1 * fa" "2^53 - 2^26"]
    by (simp add: fa_def power_int_minus)
  have 3: "double (fa * fa) = p2"
    using double_tie [of "-1" "fa * fa" "2^53 - 2^27"]
    by (simp add: fa_def p2_def power_int_minus)
  have 4: "double (1 - 3/2^27) = fb"
    using double_near [of "-1" "1 - 3/2^27" "2^53 - 3 * 2^26"]
    by (simp add: fb_def power_int_minus)
  have 5: "double (p2 * fb) = p3"
    using double_near [of "-1" "p2 * fb" "2^53 - 5 * 2^26 + 3"]
    by (simp add: fb_def p2_def p3_def power_int_minus)
  have 6: "double (1 - p3) = 335544317 / 2^53"
    using double_near [of "-25" "1 - p3" "(5 * 2^26 - 3) * 2^24"]
    by (simp add: p3_def power_int_minus)
  show ?thesis
    by (simp only: propagate_uncertainty_double_def fold_simps o_apply id_apply 1 2 3 4 5 6)
qed

lemma small_uncertainties_reordered: "propagate_uncertainty_double [] [3/2^27, 1/2^27, 1/2^27] = 335544316 / 2^53"
proof -
  define fa :: real where "fa = 1 - 1/2^27"
  define fb :: real where "fb = 1 - 3/2^27"
  define p2 :: real where "p2 = 1 - 1/2^25 + 1/2^52"
  define p3 :: real where "p3 = 1 - 5/2^27 + 4/2^53"
  have 1: "double (1 - 3/2^27) = fb"
    using double_near [of "-1" "1 - 3/2^27" "2^53 - 3 * 2^26"]
    by (simp add: fb_def power_int_minus)
  have 2: "double (1 * fb) = fb"
    using double_near [of "-1" "1 * fb" "2^53 - 3 * 2^26"]
    by (simp add: fb_def power_int_minus)
  have 3: "double (1 - 1/2^27) = fa"
    using double_near [of "-1" "1 - 1/2^27" "2^53 - 2^26"]
    by (simp add: fa_def power_int_minus)
  have 4: "double (fb * fa) = p2"
    using double_tie [of "-1" "fb * fa" "2^53 - 2^28 + 1"]
    by (simp add: fa_def fb_def p2_def power_int_minus)
  have 5: "double (p2 * fa) = p3"
    using double_near [of "-1" "p2 * fa" "2^53 - 5 * 2^26 + 4"]
    by (simp add: fa_def p2_def p3_def power_int_minus)
  have 6: "double (1 - p3) = 335544316 / 2^53"
    using double_near [of "-25" "1 - p3" "(5 * 2^26 - 4) * 2^24"]
    by (simp add: p3_def power_int_minus)
  show ?thesis
    by (simp only: propagate_uncertainty_double_def fold_simps o_apply id_apply 1 2 3 4 5 6)
qed

lemma half_and_quarter: "propagate_uncertainty_double [] [1/2, 1/4] = 5/8"
proof -
  have 1: "double (1 - 1/2) = 1/2"
    using double_near [of "-1" "1 - 1/2" "2^52"] by (simp add: power_int_minus)
  have 2: "double (1 * (1/2)) = 1/2"
    using double_near [of "-1" "1 * (1/2)" "2^52"] by (simp add: power_int_minus)
  have 3: "double (1 - 1/4) = 3/4"
    using double_near [of "-1" "1 - 1/4" "3 * 2^51"] by (simp add: power_int_minus)
  have 4: "double (1/2 * (3/4)) = 3/8"
    using double_near [of "-2" "1/2 * (3/4)" "3 * 2^51"] by (simp add: power_int_minus)
  have 5: "double (1 - 3/8) = 5/8"
    using double_near [of "-1" "1 - 3/8" "5 * 2^50"] by (simp add: power_int_minus)
  show ?thesis
    by (simp only: propagate_uncertainty_double_def fold_simps o_apply id_apply 1 2 3 4 5)
qed

subsection \<open>Claims about uncertainty propagation\<close>

text \<open>
  C9. Applied to an empty list of uncertainties, \<open>propagate_uncertainty\<close> returns exactly
  0: the loop body never runs and the result is \<open>1 - 1\<close>.
\<close>

theorem C9_propagate_uncertainty_empty:
  "propagate_uncertainty reasoning_steps [] = 0"
  by (simp add: propagate_uncertainty_def)

text \<open>
  C10. The result of \<open>propagate_uncertainty\<close> depends only on the list of uncertainties:
  two calls with the same uncertainties and any two lists of reasoning steps return the
  same value.
\<close>

theorem C10_propagate_uncertainty_ignores_steps:
  "propagate_uncertainty reasoning_steps uncertainties =
   propagate_uncertainty reasoning_steps' uncertainties"
  by (simp add: propagate_uncertainty_def)

text \<open>
  C4, as stated, fails for the value the loop computes. The single uncertainty \<open>2^-60\<close>
  is not 0 and yet the result is 0; and the same three uncertainties give two
  different results in two orders.
\<close>

theorem C4_noisy_or_counterexample:
  "propagate_uncertainty_double [] [1/2^60] = 0
   \<and> (1/2^60 :: real) \<noteq> 0
   \<and> propagate_uncertainty_double [] [1/2^27, 1/2^27, 3/2^27] = 335544317 / 2^53
   \<and> propagate_uncertainty_double [] [3/2^27, 1/2^27, 1/2^27] = 335544316 / 2^53"
proof -
  have "(1/2^60 :: real) \<noteq> 0" by simp
  with tiny_uncertainty_is_lost small_uncertainties_in_order small_uncertainties_reordered
  show ?thesis by blast
qed

text \<open>
  C4, amended. For \<open>n\<close> per-step uncertainties that all lie in \<open>[0,1]\<close>, the value
  computed by \<open>propagate_uncertainty\<close> lies in \<open>[0,1]\<close>, is 0 when every uncertainty is
  0, is 1 when one uncertainty is 1, differs from \<open>1 - \<Prod> (1 - u\<^sub>i)\<close> by at most
  \<open>(2n + 1) * 2^-54\<close>, and changes by at most \<open>(2n + 1) * 2^-53\<close> under a permutation
  of the uncertainties.
\<close>

theorem C4_noisy_or_double:
  assumes "\<forall>u\<in>set us. 0 \<le> u \<and> u \<le> 1"
  shows "(0 \<le> propagate_uncertainty_double rs us \<and> propagate_uncertainty_double rs us \<le> 1)
       \<and> ((\<forall>u\<in>set us. u = 0) \<longrightarrow> propagate_uncertainty_double rs us = 0)
       \<and> ((\<exists>u\<in>set us. u = 1) \<longrightarrow> propagate_uncertainty_double rs us = 1)
       \<and> \<bar>propagate_uncertainty_double rs us - (1 - prod_list (map (\<lambda>u. 1 - u) us))\<bar>
            \<le> (2 * real (length us) + 1) / 2 ^ 54
       \<and> (\<forall>vs. mset vs = mset us \<longrightarrow>
             \<bar>propagate_uncertainty_double rs vs - propagate_uncertainty_double rs us\<bar>
               \<le> (2 * real (length us) + 1) / 2 ^ 53)"
proof -
  let ?p = "fold (\<lambda>u p. double (p * double (1 - u))) us 1"
  from assms have p: "0 \<le> ?p \<and> ?p \<le> 1"
    by (intro product_loop_unit_interval) simp_all
  then have "0 \<le> double (1 - ?p) \<and> double (1 - ?p) \<le> 1"
    by (intro double_unit_interval) simp_all
  then have bounds: "0 \<le> propagate_uncertainty_double rs us
      \<and> propagate_uncertainty_double rs us \<le> 1"
    by (simp add: propagate_uncertainty_double_def)
  have zero: "(\<forall>u\<in>set us. u = 0) \<longrightarrow> propagate_uncertainty_double rs us = 0"
    by (simp add: propagate_uncertainty_double_def product_loop_all_zero)
  have one: "(\<exists>u\<in>set us. u = 1) \<longrightarrow> propagate_uncertainty_double rs us = 1"
    by (auto simp: propagate_uncertainty_double_def product_loop_some_one)
  have near: "\<bar>propagate_uncertainty_double rs us - (1 - prod_list (map (\<lambda>u. 1 - u) us))\<bar>
            \<le> (2 * real (length us) + 1) / 2 ^ 54"
    using propagate_uncertainty_double_error [OF assms, of rs]
    by (simp only: propagate_uncertainty_prod)
  have perm: "\<forall>vs. mset vs = mset us \<longrightarrow>
             \<bar>propagate_uncertainty_double rs vs - propagate_uncertainty_double rs us\<bar>
               \<le> (2 * real (length us) + 1) / 2 ^ 53"
  proof (intro allI impI)
    fix vs :: "real list"
    assume m: "mset vs = mset us"
    then have "set vs = set us" by (rule mset_eq_setD)
    with assms have v: "\<forall>u\<in>set vs. 0 \<le> u \<and> u \<le> 1" by simp
    from m have len: "length vs = length us" by (rule mset_eq_length)
    from m have "mset (map (\<lambda>u. 1 - u) vs) = mset (map (\<lambda>u. 1 - u) us)" by simp
    then have ex: "prod_list (map (\<lambda>u. 1 - u) vs) = prod_list (map (\<lambda>u. 1 - u) us)"
      by (rule prod_list_permutation)
    have "\<bar>propagate_uncertainty_double rs vs - (1 - prod_list (map (\<lambda>u. 1 - u) us))\<bar>
            \<le> (2 * real (length us) + 1) / 2 ^ 54"
      using propagate_uncertainty_double_error [OF v, of rs]
      by (simp only: propagate_uncertainty_prod ex len)
    with near have "\<bar>propagate_uncertainty_double rs vs - propagate_uncertainty_double rs us\<bar>
               \<le> (2 * real (length us) + 1) / 2 ^ 54 + (2 * real (length us) + 1) / 2 ^ 54"
      by linarith
    then show "\<bar>propagate_uncertainty_double rs vs - propagate_uncertainty_double rs us\<bar>
               \<le> (2 * real (length us) + 1) / 2 ^ 53"
      by simp
  qed
  show ?thesis
  proof (intro conjI)
    show "0 \<le> propagate_uncertainty_double rs us" using bounds by simp
    show "propagate_uncertainty_double rs us \<le> 1" using bounds by simp
    show "(\<forall>u\<in>set us. u = 0) \<longrightarrow> propagate_uncertainty_double rs us = 0" by (rule zero)
    show "(\<exists>u\<in>set us. u = 1) \<longrightarrow> propagate_uncertainty_double rs us = 1" by (rule one)
    show "\<bar>propagate_uncertainty_double rs us - (1 - prod_list (map (\<lambda>u. 1 - u) us))\<bar>
            \<le> (2 * real (length us) + 1) / 2 ^ 54" by (rule near)
    show "\<forall>vs. mset vs = mset us \<longrightarrow>
             \<bar>propagate_uncertainty_double rs vs - propagate_uncertainty_double rs us\<bar>
               \<le> (2 * real (length us) + 1) / 2 ^ 53" by (rule perm)
  qed
qed

theorem C4_noisy_or_double_witness:
  "propagate_uncertainty_double [] [0, 0] = 0
   \<and> propagate_uncertainty_double [] [1/2, 1] = 1
   \<and> 0 \<le> propagate_uncertainty_double [] [1/2, 1/4]
   \<and> propagate_uncertainty_double [] [1/2, 1/4] \<le> 1
   \<and> propagate_uncertainty_double [] [1/2, 1/4] = 5/8
   \<and> \<bar>propagate_uncertainty_double [] [1/2^27, 1/2^27, 3/2^27]
        - propagate_uncertainty_double [] [3/2^27, 1/2^27, 1/2^27]\<bar> \<le> 7 / 2 ^ 53"
proof -
  have h0: "\<forall>u\<in>set [0, 0 :: real]. 0 \<le> u \<and> u \<le> 1" by simp
  have h1: "\<forall>u\<in>set [1/2, 1 :: real]. 0 \<le> u \<and> u \<le> 1" by simp
  have h2: "\<forall>u\<in>set [1/2, 1/4 :: real]. 0 \<le> u \<and> u \<le> 1" by simp
  have h3: "\<forall>u\<in>set [3/2^27, 1/2^27, 1/2^27 :: real]. 0 \<le> u \<and> u \<le> 1" by simp
  have a0: "\<forall>u\<in>set [0, 0 :: real]. u = 0" by simp
  have a1: "\<exists>u\<in>set [1/2, 1 :: real]. u = 1" by simp
  have m: "mset [1/2^27, 1/2^27, 3/2^27 :: real] = mset [3/2^27, 1/2^27, 1/2^27]" by simp
  from C4_noisy_or_double [OF h0, of "[]"] a0
  have 0: "propagate_uncertainty_double [] [0, 0] = 0" by blast
  from C4_noisy_or_double [OF h1, of "[]"] a1
  have 1: "propagate_uncertainty_double [] [1/2, 1] = 1" by blast
  from C4_noisy_or_double [OF h2, of "[]"]
  have 2: "0 \<le> propagate_uncertainty_double [] [1/2, 1/4]
      \<and> propagate_uncertainty_double [] [1/2, 1/4] \<le> 1"
    by (rule conjunct1)
  from C4_noisy_or_double [OF h3, of "[]"]
  have "\<forall>vs. mset vs = mset [3/2^27, 1/2^27, 1/2^27 :: real] \<longrightarrow>
             \<bar>propagate_uncertainty_double [] vs
               - propagate_uncertainty_double [] [3/2^27, 1/2^27, 1/2^27]\<bar>
               \<le> (2 * real (length [3/2^27, 1/2^27, 1/2^27 :: real]) + 1) / 2 ^ 53"
    by blast
  with m have "\<bar>propagate_uncertainty_double [] [1/2^27, 1/2^27, 3/2^27]
        - propagate_uncertainty_double [] [3/2^27, 1/2^27, 1/2^27]\<bar>
      \<le> (2 * real (length [3/2^27, 1/2^27, 1/2^27 :: real]) + 1) / 2 ^ 53"
    by blast
  then have 3: "\<bar>propagate_uncertainty_double [] [1/2^27, 1/2^27, 3/2^27]
        - propagate_uncertainty_double [] [3/2^27, 1/2^27, 1/2^27]\<bar> \<le> 7 / 2 ^ 53"
    by simp
  from 0 1 2 3 half_and_quarter show ?thesis by blast
qed

subsection \<open>Facts about causal edges\<close>

lemma update_causal_strength_absent:
  "causal_edges (source, target) = None \<Longrightarrow>
   update_causal_strength causal_edges source target p = causal_edges"
  by (simp add: update_causal_strength_def)

lemma update_causal_strength_present:
  "causal_edges (source, target) = Some edge \<Longrightarrow>
   update_causal_strength causal_edges source target p =
     causal_edges((source, target) \<mapsto> edge\<lparr>strength := 9/10 * strength edge + 1/10 * p\<rparr>)"
  by (simp add: update_causal_strength_def Let_def)

lemma ema_unit_interval:
  fixes s p :: real
  assumes "0 \<le> s" "s \<le> 1" "0 \<le> p" "p \<le> 1"
  shows "0 \<le> 9/10 * s + 1/10 * p \<and> 9/10 * s + 1/10 * p \<le> 1"
  using assms by simp

lemma update_causal_strength_seq_snoc:
  "update_causal_strength_seq ce s t (ps @ [p]) =
     update_causal_strength (update_causal_strength_seq ce s t ps) s t p"
  by (simp add: update_causal_strength_seq_def)

lemma update_causal_strength_seq_bounds:
  assumes "causal_edges (source, target) = Some edge"
      and "0 \<le> strength edge" "strength edge \<le> 1"
      and "\<forall>p\<in>set ps. 0 \<le> p \<and> p \<le> 1"
  shows "\<exists>edge'. update_causal_strength_seq causal_edges source target ps (source, target) = Some edge'
            \<and> 0 \<le> strength edge' \<and> strength edge' \<le> 1"
  using assms(4)
proof (induction ps rule: rev_induct)
  case Nil
  with assms(1-3) show ?case by (simp add: update_causal_strength_seq_def)
next
  case (snoc p ps)
  then obtain e where e: "update_causal_strength_seq causal_edges source target ps (source, target) = Some e"
      "0 \<le> strength e" "strength e \<le> 1"
    by auto
  from snoc.prems have p: "0 \<le> p" "p \<le> 1" by simp_all
  show ?case
    using e p ema_unit_interval [of "strength e" p]
    by (simp add: update_causal_strength_seq_snoc update_causal_strength_present)
qed

subsection \<open>Claims about causal edges\<close>

text \<open>
  C1, as stated, fails: on a fresh tracker \<open>update_causal_strength\<close> for the pair
  \<open>(A, B)\<close> with observed probability 0.9 creates no edge, and an update of an existing
  edge with observation count 1 leaves the count at 1.
\<close>

theorem C1_no_edge_created_counterexample:
  "update_causal_strength Map.empty ''A'' ''B'' (9/10) (''A'', ''B'') = None
   \<and> map_option observation_count
        (update_causal_strength [(''A'', ''B'') \<mapsto> ab_edge] ''A'' ''B'' (1/10) (''A'', ''B''))
      = Some 1"
  by (simp add: update_causal_strength_def ab_edge_def)


text \<open>
  C1, amended. For a pair with no edge, \<open>update_causal_strength\<close> leaves the edge table
  unchanged: no edge is created. For a pair with an edge, the strength becomes
  \<open>0.9 * strength + 0.1 * observed_probability\<close>, the observation count keeps its value and
  no other entry changes.
\<close>

theorem C1_update_causal_strength:
  "(causal_edges (source, target) = None \<longrightarrow>
      update_causal_strength causal_edges source target p = causal_edges)
   \<and> (\<forall>edge. causal_edges (source, target) = Some edge \<longrightarrow>
        update_causal_strength causal_edges source target p =
          causal_edges((source, target) \<mapsto> edge\<lparr>strength := 9/10 * strength edge + 1/10 * p\<rparr>)
        \<and> map_option observation_count
            (update_causal_strength causal_edges source target p (source, target))
          = Some (observation_count edge))"
  by (simp add: update_causal_strength_absent update_causal_strength_present)

theorem C1_update_causal_strength_witness:
  "update_causal_strength Map.empty ''A'' ''B'' (9/10) = Map.empty
   \<and> map_option strength
        (update_causal_strength [(''A'', ''B'') \<mapsto> ab_edge] ''A'' ''B'' (1/10) (''A'', ''B''))
      = Some (41/50)"
proof -
  have a: "(Map.empty :: causal_edges) (''A'', ''B'') = None" by simp
  have b: "[(''A'', ''B'') \<mapsto> ab_edge] (''A'', ''B'') = Some ab_edge" by simp
  from C1_update_causal_strength [of Map.empty "''A''" "''B''" "9/10"] a
  have 1: "update_causal_strength Map.empty ''A'' ''B'' (9/10) = Map.empty" by blast
  from C1_update_causal_strength [of "[(''A'', ''B'') \<mapsto> ab_edge]" "''A''" "''B''" "1/10"] b
  have "update_causal_strength [(''A'', ''B'') \<mapsto> ab_edge] ''A'' ''B'' (1/10) =
          [(''A'', ''B'') \<mapsto> ab_edge, (''A'', ''B'') \<mapsto> ab_edge\<lparr>strength := 9/10 * strength ab_edge + 1/10 * (1/10)\<rparr>]"
    by blast
  then have 2: "map_option strength
        (update_causal_strength [(''A'', ''B'') \<mapsto> ab_edge] ''A'' ''B'' (1/10) (''A'', ''B''))
      = Some (41/50)"
    by (simp add: ab_edge_def)
  from 1 2 show ?thesis by blast
qed


text \<open>
  C2. For an existing edge whose strength lies in \<open>[0,1]\<close> and every sequence of
  observed probabilities in \<open>[0,1]\<close>, after each call of the sequence the edge is still
  there with a strength in \<open>[0,1]\<close>, and the next call moves the strength to
  \<open>0.9 * strength + 0.1 * observed_probability\<close>.
\<close>

theorem C2_strength_stays_in_unit_interval:
  assumes "causal_edges (source, target) = Some edge"
      and "0 \<le> strength edge \<and> strength edge \<le> 1"
      and "\<forall>p\<in>set ps. 0 \<le> p \<and> p \<le> 1"
  shows "\<forall>n\<le>length ps.
           (\<exists>edge'. update_causal_strength_seq causal_edges source target (take n ps) (source, target)
                       = Some edge'
                   \<and> 0 \<le> strength edge' \<and> strength edge' \<le> 1
                   \<and> (n < length ps \<longrightarrow>
                        map_option strength
                          (update_causal_strength_seq causal_edges source target (take (Suc n) ps)
                             (source, target))
                        = Some (9/10 * strength edge' + 1/10 * ps ! n)))"
proof (intro allI impI)
  fix n assume "n \<le> length ps"
  from assms(3) have "\<forall>p\<in>set (take n ps). 0 \<le> p \<and> p \<le> 1"
    by (meson in_set_takeD)
  with assms(1,2) obtain e where
    e: "update_causal_strength_seq causal_edges source target (take n ps) (source, target) = Some e"
       "0 \<le> strength e" "strength e \<le> 1"
    using update_causal_strength_seq_bounds [of causal_edges source target edge "take n ps"]
    by blast
  have "n < length ps \<longrightarrow>
          map_option strength
            (update_causal_strength_seq causal_edges source target (take (Suc n) ps) (source, target))
          = Some (9/10 * strength e + 1/10 * ps ! n)"
    using e(1)
    by (simp add: take_Suc_conv_app_nth update_causal_strength_seq_snoc
        update_causal_strength_present)
  with e show "\<exists>edge'. update_causal_strength_seq causal_edges source target (take n ps) (source, target)
                       = Some edge'
                   \<and> 0 \<le> strength edge' \<and> strength edge' \<le> 1
                   \<and> (n < length ps \<longrightarrow>
                        map_option strength
                          (update_causal_strength_seq causal_edges source target (take (Suc n) ps)
                             (source, target))
                        = Some (9/10 * strength edge' + 1/10 * ps ! n))"
    by blast
qed

theorem C2_strength_witness:
  "[(''A'', ''B'') \<mapsto> ab_edge] (''A'', ''B'') = Some ab_edge
   \<and> 0 \<le> strength ab_edge \<and> strength ab_edge \<le> 1
   \<and> (\<exists>edge'. update_causal_strength_seq [(''A'', ''B'') \<mapsto> ab_edge] ''A'' ''B'' [1/10, 1, 0]
                  (''A'', ''B'') = Some edge'
              \<and> 0 \<le> strength edge' \<and> strength edge' \<le> 1)
   \<and> map_option strength
        (update_causal_strength_seq [(''A'', ''B'') \<mapsto> ab_edge] ''A'' ''B'' [1/10, 1, 0] (''A'', ''B''))
      = Some (3771/5000)"
proof -
  have a: "[(''A'', ''B'') \<mapsto> ab_edge] (''A'', ''B'') = Some ab_edge" by simp
  have b: "0 \<le> strength ab_edge \<and> strength ab_edge \<le> 1" by (simp add: ab_edge_def)
  have c: "\<forall>p\<in>set [1/10, 1, 0 :: real]. 0 \<le> p \<and> p \<le> 1" by simp
  have "(3::nat) \<le> length [1/10, 1, 0 :: real]" by simp
  with a b c
    C2_strength_stays_in_unit_interval
      [of "[(''A'', ''B'') \<mapsto> ab_edge]" "''A''" "''B''" ab_edge "[1/10, 1, 0]"]
  have d: "\<exists>edge'. update_causal_strength_seq [(''A'', ''B'') \<mapsto> ab_edge] ''A'' ''B''
                  (take 3 [1/10, 1, 0]) (''A'', ''B'') = Some edge'
              \<and> 0 \<le> strength edge' \<and> strength edge' \<le> 1"
    by blast
  have v: "map_option strength
        (update_causal_strength_seq [(''A'', ''B'') \<mapsto> ab_edge] ''A'' ''B'' [1/10, 1, 0] (''A'', ''B''))
      = Some (3771/5000)"
    by (simp add: update_causal_strength_seq_def update_causal_strength_def ab_edge_def)
  from a b d v show ?thesis by simp
qed

subsection \<open>Facts about beam search\<close>

lemma beam_iterations_no_beams:
  "beam_iterations get_neighbors score_path beam_width n [] = Inr []"
  by (induction n) (simp_all add: sorted_by_score_desc_def slice_upto_def)

lemma beam_search_depth_0:
  "max_depth \<le> 0 \<Longrightarrow>
   beam_search get_initial_entities get_neighbors score_path query beam_width max_depth
     = Inr (map (\<lambda>entity. Path [entity]) (get_initial_entities query))"
  by (simp add: beam_search_def)

lemma collect_candidates_paths:
  "collect_candidates get_neighbors score (map (\<lambda>entity. Path [entity]) entities)
     = Inr (concat (map (\<lambda>entity. map (\<lambda>neighbor. ([entity, neighbor], score [entity, neighbor]))
                                     (get_neighbors (Entity entity))) entities))"
  by (induction entities) simp_all

lemma sorted_by_score_desc_sorted:
  "sorted_wrt (\<lambda>a b. snd b \<le> snd a) (sorted_by_score_desc candidates)"
proof -
  have "sorted (map (\<lambda>x. - snd x) (sort_key (\<lambda>x. - snd x) candidates))"
    by (rule sorted_sort_key)
  then show ?thesis
    by (simp add: sorted_by_score_desc_def sorted_map)
qed

lemma sorted_by_score_desc_stable:
  "filter (\<lambda>x. snd x = k) (sorted_by_score_desc candidates) = filter (\<lambda>x. snd x = k) candidates"
  using sort_key_stable [of "\<lambda>x. - snd x" "- k" candidates]
  by (simp add: sorted_by_score_desc_def)

lemma beam_search_depth_1:
  assumes "0 \<le> beam_width"
  shows "\<exists>ranked. beam_search get_initial_entities get_neighbors score_path query beam_width 1
                   = Inr (map (\<lambda>(path, score). Scored path score) ranked)
           \<and> length ranked \<le> nat beam_width
           \<and> (\<forall>(path, score)\<in>set ranked. length path = 2)
           \<and> sorted_wrt (\<lambda>a b. snd b \<le> snd a) ranked"
proof -
  let ?cands = "concat (map (\<lambda>entity. map (\<lambda>neighbor. ([entity, neighbor],
                    score_path query [entity, neighbor])) (get_neighbors (Entity entity)))
                  (get_initial_entities query))"
  let ?ranked = "take (nat beam_width) (sorted_by_score_desc ?cands)"
  have run: "beam_search get_initial_entities get_neighbors score_path query beam_width 1
               = Inr (map (\<lambda>(path, score). Scored path score) ?ranked)"
    using assms by (simp add: beam_search_def collect_candidates_paths slice_upto_def)
  have len: "length ?ranked \<le> nat beam_width" by simp
  have "\<forall>(path, score)\<in>set ?cands. length path = 2" by auto
  then have "\<forall>(path, score)\<in>set (sorted_by_score_desc ?cands). length path = 2"
    by (simp add: sorted_by_score_desc_def)
  then have two: "\<forall>(path, score)\<in>set ?ranked. length path = 2"
    by (meson in_set_takeD)
  have srt: "sorted_wrt (\<lambda>a b. snd b \<le> snd a) ?ranked"
    using sorted_by_score_desc_sorted by (rule sorted_wrt_take)
  show ?thesis
  proof (rule exI [of _ ?ranked], intro conjI)
    show "beam_search get_initial_entities get_neighbors score_path query beam_width 1
               = Inr (map (\<lambda>(path, score). Scored path score) ?ranked)" by (rule run)
    show "length ?ranked \<le> nat beam_width" by (rule len)
    show "\<forall>(path, score)\<in>set ?ranked. length path = 2" by (rule two)
    show "sorted_wrt (\<lambda>a b. snd b \<le> snd a) ?ranked" by (rule srt)
  qed
qed

lemma collect_candidates_scored:
  "\<forall>b\<in>set beams. \<exists>path score. b = Scored path score \<Longrightarrow>
   collect_candidates get_neighbors score_path beams = Inr []
   \<or> collect_candidates get_neighbors score_path beams = Inl TypeError"
proof (induction beams)
  case Nil
  show ?case by simp
next
  case (Cons b bs)
  then obtain p s where b: "b = Scored p s" by auto
  from Cons have "collect_candidates get_neighbors score_path bs = Inr []
     \<or> collect_candidates get_neighbors score_path bs = Inl TypeError"
    by simp
  then show ?case
    by (auto simp: b)
qed

lemma beam_iterations_scored:
  "\<forall>b\<in>set beams. \<exists>path score. b = Scored path score \<Longrightarrow>
   beam_iterations get_neighbors score_path beam_width (Suc n) beams = Inr []
   \<or> beam_iterations get_neighbors score_path beam_width (Suc n) beams = Inl TypeError"
  using collect_candidates_scored [of beams get_neighbors score_path]
  by (auto simp: beam_iterations_no_beams sorted_by_score_desc_def slice_upto_def)

lemma beam_search_depth_ge_2:
  assumes "2 \<le> max_depth"
  shows "beam_search get_initial_entities get_neighbors score_path query beam_width max_depth
           = Inr []
       \<or> (\<exists>e. beam_search get_initial_entities get_neighbors score_path query beam_width max_depth
                 = Inl e)"
proof -
  from assms have "Suc (Suc 0) \<le> nat max_depth" by simp
  then obtain n where n: "nat max_depth = Suc (Suc n)"
    by (metis Suc_le_D Suc_le_mono)
  let ?b0 = "map (\<lambda>entity. Path [entity]) (get_initial_entities query)"
  show ?thesis
  proof (cases "collect_candidates get_neighbors (score_path query) ?b0")
    case (Inl e)
    then show ?thesis by (simp add: beam_search_def n)
  next
    case (Inr cands)
    let ?b1 = "map (\<lambda>(path, score). Scored path score)
                 (slice_upto beam_width (sorted_by_score_desc cands))"
    have "\<forall>b\<in>set ?b1. \<exists>path score. b = Scored path score"
      by auto
    from beam_iterations_scored [OF this, of get_neighbors "score_path query" beam_width n] Inr
    show ?thesis by (auto simp: beam_search_def n)
  qed
qed

subsection \<open>Claims about beam search\<close>

text \<open>
  C7. When \<open>get_initial_entities\<close> returns an empty collection for the query,
  \<open>beam_search\<close> returns the empty sequence and raises nothing, for every beam width and
  every maximal depth.
\<close>

theorem C7_beam_search_no_initial_entities:
  "get_initial_entities query = [] \<Longrightarrow>
   beam_search get_initial_entities get_neighbors score_path query beam_width max_depth = Inr []"
  by (simp add: beam_search_def beam_iterations_no_beams)

theorem C7_beam_search_witness:
  "beam_search (\<lambda>query. []) ab_neighbors scenario_score ''q'' 2 3 = Inr []"
  using C7_beam_search_no_initial_entities
          [of "\<lambda>query. []" "''q''" ab_neighbors scenario_score 2 3]
  by simp

text \<open>
  C3. The claim is that \<open>beam_search\<close> returns at most \<open>beam_width\<close> scored paths, each of
  length at most \<open>max_depth + 1\<close>, ranked by descending score. On the graph of the spec's
  scenario the code meets it at depth 1 only: at depth 0 with width 1 it returns both
  initial paths, bare and unscored; at depth 2 the second iteration reads the
  \<open>(path, score)\<close> tuples of the first as if they were paths and raises \<open>TypeError\<close>.
\<close>

theorem C3_beam_search_depths:
  "beam_search xy_entities ab_neighbors scenario_score ''q'' 1 0
     = Inr [Path [''X''], Path [''Y'']]
   \<and> beam_search xy_entities ab_neighbors scenario_score ''q'' 2 1
     = Inr [Scored [''X'', ''A''] (9/10), Scored [''X'', ''B''] (8/10)]
   \<and> beam_search xy_entities ab_neighbors scenario_score ''q'' 2 2 = Inl TypeError"
  by (simp add: beam_search_def xy_entities_def ab_neighbors_def scenario_score_def
      sorted_by_score_desc_def slice_upto_def numeral_2_eq_2)

subsection \<open>Claims about the per-step estimate\<close>

text \<open>
  C5. The estimate of a step is 0.1 for \<open>interpret_query\<close>; for \<open>analyze_knowledge\<close> with
  a knowledge dictionary as content it is the mean of the uncertainties of its
  \<open>relevant_facts\<close>, and 0.5 when that list is empty or the key is absent; it is 0.2 for
  \<open>synthesize_answer\<close>; and for every other type it is 1.0, returned as a value and not
  raised as an error.
\<close>

theorem C5_estimate_uncertainty:
  "(step_type step = ''interpret_query'' \<longrightarrow> estimate_uncertainty_of_step step = Inr (1/10))
   \<and> (step_type step = ''analyze_knowledge'' \<longrightarrow>
        (\<forall>d. step_content step = Dict d \<longrightarrow>
           estimate_uncertainty_of_step step =
             Inr (case d ''relevant_facts'' of
                    None \<Rightarrow> 1/2
                  | Some items \<Rightarrow>
                      if items = [] then 1/2
                      else sum_list (map fact_uncertainty items) / real (length items))))
   \<and> (step_type step = ''synthesize_answer'' \<longrightarrow> estimate_uncertainty_of_step step = Inr (1/5))
   \<and> (step_type step \<noteq> ''interpret_query'' \<and> step_type step \<noteq> ''analyze_knowledge''
        \<and> step_type step \<noteq> ''synthesize_answer'' \<longrightarrow>
        estimate_uncertainty_of_step step = Inr 1)"
  by (simp add: estimate_uncertainty_of_step_def mean_def Let_def split: option.splits)

theorem C5_estimate_uncertainty_witness:
  "estimate_uncertainty_of_step interpret_step = Inr (1/10)
   \<and> estimate_uncertainty_of_step analyze_step = Inr (3/10)
   \<and> estimate_uncertainty_of_step analyze_step_no_facts = Inr (1/2)
   \<and> estimate_uncertainty_of_step synthesize_step = Inr (1/5)
   \<and> estimate_uncertainty_of_step unknown_step = Inr 1"
proof -
  have 1: "estimate_uncertainty_of_step interpret_step = Inr (1/10)"
    using C5_estimate_uncertainty [of interpret_step] by (simp add: interpret_step_def)
  have 2: "estimate_uncertainty_of_step analyze_step = Inr (3/10)"
    using C5_estimate_uncertainty [of analyze_step] by (simp add: analyze_step_def)
  have 3: "estimate_uncertainty_of_step analyze_step_no_facts = Inr (1/2)"
    using C5_estimate_uncertainty [of analyze_step_no_facts]
    by (simp add: analyze_step_no_facts_def)
  have 4: "estimate_uncertainty_of_step synthesize_step = Inr (1/5)"
    using C5_estimate_uncertainty [of synthesize_step] by (simp add: synthesize_step_def)
  have 5: "estimate_uncertainty_of_step unknown_step = Inr 1"
    using C5_estimate_uncertainty [of unknown_step] by (simp add: unknown_step_def)
  from 1 2 3 4 5 show ?thesis by blast
qed

subsection \<open>Facts about attribution\<close>

lemma step_contribution:
  "(if T > 0 then py_div (detailed_uncertainty step) T else Inr 0)
     = Inr (contribution T step)"
  by (simp add: py_div_def contribution_def)

lemma attribute_steps_fold:
  "attribute_steps T steps sources =
     Inr (fold (\<lambda>step. AList.update (detailed_type step) (contribution T step)) steps sources)"
  by (induction steps arbitrary: sources) (simp_all add: step_contribution)





lemma fold_update_values:
  "\<forall>step\<in>set steps. c step = (0::real) \<Longrightarrow> \<forall>v\<in>snd ` set sources. v = 0 \<Longrightarrow>
   \<forall>v\<in>snd ` set (fold (\<lambda>step. AList.update (detailed_type step) (c step)) steps sources). v = 0"
proof (induction steps arbitrary: sources)
  case Nil
  then show ?case by simp
next
  case (Cons s steps)
  have "set (AList.update (detailed_type s) (c s) sources)
          \<subseteq> insert (detailed_type s, c s) (set sources)"
    by (induction sources) auto
  with Cons.prems have "\<forall>v\<in>snd ` set (AList.update (detailed_type s) (c s) sources). v = 0"
    by fastforce
  with Cons.IH [of "AList.update (detailed_type s) (c s) sources"] Cons.prems(1)
  show ?case by simp
qed



text \<open>Whatever the uncertainties are, the guard keeps the division from a zero divisor.\<close>

lemma analyze_uncertainty_sources_returns:
  "\<exists>sources. analyze_uncertainty_sources steps = Inr sources"
  by (simp add: analyze_uncertainty_sources_def attribute_steps_fold)

text \<open>
  In exact arithmetic the contributions of all steps add up to 1. The quotients the
  interpreter computes are rounded, and their sum is 1 only up to that rounding.
\<close>

lemma sum_list_quotients:
  "sum_list (map (\<lambda>s. f s / (c::real)) xs) = sum_list (map f xs) / c"
  by (induction xs) (simp_all add: add_divide_distrib)

lemma contribution_sum:
  assumes "0 < sum_list (map detailed_uncertainty steps)"
  shows "sum_list (map (contribution (sum_list (map detailed_uncertainty steps))) steps) = 1"
proof -
  let ?T = "sum_list (map detailed_uncertainty steps)"
  have "contribution ?T = (\<lambda>s. detailed_uncertainty s / ?T)"
    using assms by (simp add: contribution_def fun_eq_iff)
  then have "sum_list (map (contribution ?T) steps) = ?T / ?T"
    by (simp add: sum_list_quotients)
  with assms show ?thesis by simp
qed

subsection \<open>Claims about attribution\<close>




subsection \<open>Claims about \<open>reason\<close>\<close>

lemma placeholder_reasoning_result_fields:
  "supporting_evidence (placeholder_reasoning_result query retrieved_info activated_knowledge)
     = map result_content (take 3 retrieved_info)"
  "activated_concepts (placeholder_reasoning_result query retrieved_info activated_knowledge)
     = take 5 (map fst activated_knowledge)"
  by (simp_all add: placeholder_reasoning_result_def)

text \<open>
  C8. The claim is that \<open>reason\<close> returns the result dictionary with its conclusion,
  confidence, uncertainty, supporting evidence and activated concepts. The code does not:
  with a driver, \<open>reason\<close> raises \<open>NameError\<close> at its first statement, for every query,
  every list of retrieved items and every activated-knowledge mapping; without a driver
  it raises \<open>AttributeError\<close>. It never reaches a statement that builds the dictionary.
\<close>

theorem C8_reason_raises:
  "reason (Some session) query retrieved_info activated_knowledge = Inl (NameError ''timestamp'')
   \<and> reason None query retrieved_info activated_knowledge = Inl AttributeError"
  by (simp add: reason_def resolve_name_def module_names_def)

end
